theory Spec2Isabelle
  imports Complex_Main "HOL-Library.Sublist"
begin

section \<open>Sigma value types (sigma/types.py)\<close>

text \<open>
  A shallow embedding of the value types of \<^verbatim>\<open>sigma/types.py\<close>. Python strings are
  modelled as \<open>string\<close> (a list of characters), the tuple \<^verbatim>\<open>SigmaString.s\<close> as a list of
  items that are either plain strings or special characters, and every \<^verbatim>\<open>raise\<close> of the
  source as the left injection of a sum type.
\<close>

subsection \<open>Special characters and module constants\<close>

datatype SpecialChars = WILDCARD_MULTI | WILDCARD_SINGLE

definition escape_char :: char where
  "escape_char = CHR 0x5C"

definition char_mapping :: "char \<rightharpoonup> SpecialChars" where
  "char_mapping = [CHR ''*'' \<mapsto> WILDCARD_MULTI, CHR ''?'' \<mapsto> WILDCARD_SINGLE]"

fun special_char_mapping :: "SpecialChars \<Rightarrow> char" where
  "special_char_mapping WILDCARD_MULTI = CHR ''*''"
| "special_char_mapping WILDCARD_SINGLE = CHR ''?''"

subsection \<open>Python values and errors\<close>

text \<open>An element of the tuple \<^verbatim>\<open>SigmaString.s\<close>: a \<^verbatim>\<open>str\<close> or a \<^verbatim>\<open>SpecialChars\<close>.\<close>

datatype item = Str string | Special SpecialChars

record SigmaString =
  s :: "item list"
  protected :: bool

text \<open>
  The dynamically typed operands the methods of \<^verbatim>\<open>SigmaString\<close> test with
  \<^verbatim>\<open>isinstance\<close>; \<open>PyObject\<close> stands for an object of any other class.
\<close>

text \<open>
  A \<^verbatim>\<open>float\<close>: a finite value, which is a rational number, an infinity or a NaN.
\<close>

datatype py_float = Finite rat | PosInf | NegInf | NaN

datatype py_value =
    PyStr string
  | PySpecialChars SpecialChars
  | PySigmaString SigmaString
  | PyInt int
  | PyFloat py_float
  | PyNone
  | PyObject nat

datatype error =
    IndexError
  | TypeError
  | ValueError
  | OverflowError
  | NotImplementedError
  | SigmaValueError
  | SigmaRegularExpressionError

subsection \<open>\<^verbatim>\<open>SigmaString.__init__\<close>: parsing a raw string\<close>

text \<open>
  The \<^verbatim>\<open>for c in s\<close> loop with its three variables \<^verbatim>\<open>r\<close>, \<^verbatim>\<open>acc\<close> and \<^verbatim>\<open>escaped\<close>;
  the function returns their values when the input is exhausted.
\<close>

fun init_loop :: "string \<Rightarrow> item list \<Rightarrow> string \<Rightarrow> bool \<Rightarrow> item list \<times> string \<times> bool" where
  "init_loop [] r acc escaped = (r, acc, escaped)"
| "init_loop (c # cs) r acc escaped =
     (if escaped then
        (if char_mapping c \<noteq> None \<or> c = escape_char
         then init_loop cs r (acc @ [c]) False
         else init_loop cs r (acc @ [escape_char, c]) False)
      else if c = escape_char then init_loop cs r acc True
      else
        (case char_mapping c of
           Some sp \<Rightarrow> init_loop cs ((if acc \<noteq> [] then r @ [Str acc] else r) @ [Special sp]) [] False
         | None \<Rightarrow> init_loop cs r (acc @ [c]) False))"

text \<open>The two statements after the loop.\<close>

definition init_finish :: "item list \<times> string \<times> bool \<Rightarrow> item list" where
  "init_finish st =
     (case st of (r, acc, escaped) \<Rightarrow>
        (let acc' = (if escaped then acc @ [escape_char] else acc)
         in if acc' \<noteq> [] then r @ [Str acc'] else r))"

definition SigmaString_init :: "string option \<Rightarrow> SigmaString" where
  "SigmaString_init so =
     (let raw = (case so of None \<Rightarrow> [] | Some x \<Rightarrow> x)
      in \<lparr>s = init_finish (init_loop raw [] [] False), protected = True\<rparr>)"

subsection \<open>Operations on the item sequence\<close>

text \<open>
  \<^verbatim>\<open>__add__\<close> and \<^verbatim>\<open>__radd__\<close> return the sentinel \<^verbatim>\<open>NotImplemented\<close> for an unsupported
  operand, modelled as \<open>None\<close>. The new object comes from \<^verbatim>\<open>self.__class__()\<close> and gets
  its \<^verbatim>\<open>s\<close> overwritten.
\<close>

definition add :: "SigmaString \<Rightarrow> py_value \<Rightarrow> SigmaString option" where
  "add self other =
     (case other of
        PySigmaString o' \<Rightarrow> Some ((SigmaString_init None)\<lparr>s := s self @ s o'\<rparr>)
      | PyStr t \<Rightarrow> Some ((SigmaString_init None)\<lparr>s := s self @ [Str t]\<rparr>)
      | PySpecialChars sp \<Rightarrow> Some ((SigmaString_init None)\<lparr>s := s self @ [Special sp]\<rparr>)
      | _ \<Rightarrow> None)"

definition radd :: "SigmaString \<Rightarrow> py_value \<Rightarrow> SigmaString option" where
  "radd self other =
     (case other of
        PyStr t \<Rightarrow> Some ((SigmaString_init None)\<lparr>s := Str t # s self\<rparr>)
      | PySpecialChars sp \<Rightarrow> Some ((SigmaString_init None)\<lparr>s := Special sp # s self\<rparr>)
      | _ \<Rightarrow> None)"

text \<open>
  \<^verbatim>\<open>__eq__\<close>: a \<^verbatim>\<open>str\<close> operand is parsed first and compared as a \<^verbatim>\<open>SigmaString\<close>; any operand
  that is neither raises \<^verbatim>\<open>NotImplementedError\<close>.
\<close>

definition eq :: "SigmaString \<Rightarrow> py_value \<Rightarrow> error + bool" where
  "eq self other =
     (case other of
        PyStr t \<Rightarrow> Inr (s self = s (SigmaString_init (Some t)))
      | PySigmaString o' \<Rightarrow> Inr (s self = s o')
      | _ \<Rightarrow> Inl NotImplementedError)"

text \<open>\<^verbatim>\<open>__str__\<close>: the string parts joined, each special character as its designator.\<close>

fun str_items :: "item list \<Rightarrow> string" where
  "str_items [] = []"
| "str_items (Str t # items) = t @ str_items items"
| "str_items (Special sp # items) = special_char_mapping sp # str_items items"

definition sigma_str :: "SigmaString \<Rightarrow> string" where
  "sigma_str self = str_items (s self)"

text \<open>\<^verbatim>\<open>isinstance(val, type(c))\<close> for an item \<^verbatim>\<open>c\<close> of the tuple.\<close>

fun isinstance_type_of :: "py_value \<Rightarrow> item \<Rightarrow> bool" where
  "isinstance_type_of (PyStr _) (Str _) = True"
| "isinstance_type_of (PySpecialChars _) (Special _) = True"
| "isinstance_type_of _ _ = False"

text \<open>
  \<^verbatim>\<open>startswith\<close> reads \<^verbatim>\<open>self.s[0]\<close> and \<^verbatim>\<open>endswith\<close> reads \<^verbatim>\<open>self.s[-1]\<close>; on an empty
  tuple either read raises \<^verbatim>\<open>IndexError\<close>.
\<close>

definition startswith :: "SigmaString \<Rightarrow> py_value \<Rightarrow> error + bool" where
  "startswith self val =
     (case s self of
        [] \<Rightarrow> Inl IndexError
      | c # _ \<Rightarrow>
          if \<not> isinstance_type_of val c then Inr False
          else (case (c, val) of
                  (Str text, PyStr v) \<Rightarrow> Inr (prefix v text)
                | (Special sp, PySpecialChars v) \<Rightarrow> Inr (sp = v)
                | _ \<Rightarrow> Inr False))"

definition endswith :: "SigmaString \<Rightarrow> py_value \<Rightarrow> error + bool" where
  "endswith self val =
     (if s self = [] then Inl IndexError
      else
        (let c = last (s self)
         in if \<not> isinstance_type_of val c then Inr False
            else (case (c, val) of
                    (Str text, PyStr v) \<Rightarrow> Inr (suffix v text)
                  | (Special sp, PySpecialChars v) \<Rightarrow> Inr (sp = v)
                  | _ \<Rightarrow> Inr False)))"

subsection \<open>\<^verbatim>\<open>SigmaString.__iter__\<close> and \<^verbatim>\<open>SigmaString.convert\<close>\<close>

text \<open>
  What \<^verbatim>\<open>__iter__\<close> yields: the single characters of the string parts, and the special
  characters as they are.
\<close>

datatype atom = AChar char | ASpecial SpecialChars

fun iter_items :: "item list \<Rightarrow> atom list" where
  "iter_items [] = []"
| "iter_items (Str t # items) = map AChar t @ iter_items items"
| "iter_items (Special sp # items) = ASpecial sp # iter_items items"

definition sigma_iter :: "SigmaString \<Rightarrow> atom list" where
  "sigma_iter self = iter_items (s self)"

text \<open>
  The keyword parameters of \<^verbatim>\<open>convert\<close>; the three \<^verbatim>\<open>Optional[str]\<close> parameters may be
  \<^verbatim>\<open>None\<close>.
\<close>

record convert_args =
  arg_escape_char :: "string option"
  wildcard_multi :: "string option"
  wildcard_single :: "string option"
  add_escaped :: string
  filter_chars :: string

definition default_args :: convert_args where
  "default_args =
     \<lparr>arg_escape_char = Some [escape_char], wildcard_multi = Some ''*'',
      wildcard_single = Some ''?'', add_escaped = [], filter_chars = []\<rparr>"

text \<open>\<^verbatim>\<open>frozenset((wildcard_multi or "") + (wildcard_single or "") + add_escaped)\<close>\<close>

definition escaped_chars :: "convert_args \<Rightarrow> char set" where
  "escaped_chars args =
     set ((case wildcard_multi args of None \<Rightarrow> [] | Some m \<Rightarrow> m)
          @ (case wildcard_single args of None \<Rightarrow> [] | Some sg \<Rightarrow> sg)
          @ add_escaped args)"

text \<open>
  The \<^verbatim>\<open>for c in self\<close> loop of \<^verbatim>\<open>convert\<close> with its accumulator \<^verbatim>\<open>s\<close> (here \<open>out\<close>).
  \<^verbatim>\<open>s += escape_char\<close> with \<^verbatim>\<open>escape_char\<close> being \<^verbatim>\<open>None\<close> raises \<^verbatim>\<open>TypeError\<close>; a
  special character whose representation is \<^verbatim>\<open>None\<close> raises \<^verbatim>\<open>SigmaValueError\<close>.
\<close>

fun convert_loop :: "convert_args \<Rightarrow> atom list \<Rightarrow> string \<Rightarrow> error + string" where
  "convert_loop args [] out = Inr out"
| "convert_loop args (AChar c # cs) out =
     (if c \<in> set (filter_chars args) then convert_loop args cs out
      else if c \<in> escaped_chars args then
        (case arg_escape_char args of
           None \<Rightarrow> Inl TypeError
         | Some e \<Rightarrow> convert_loop args cs (out @ e @ [c]))
      else convert_loop args cs (out @ [c]))"
| "convert_loop args (ASpecial WILDCARD_MULTI # cs) out =
     (case wildcard_multi args of
        Some m \<Rightarrow> convert_loop args cs (out @ m)
      | None \<Rightarrow> Inl SigmaValueError)"
| "convert_loop args (ASpecial WILDCARD_SINGLE # cs) out =
     (case wildcard_single args of
        Some sg \<Rightarrow> convert_loop args cs (out @ sg)
      | None \<Rightarrow> Inl SigmaValueError)"

definition convert :: "SigmaString \<Rightarrow> convert_args \<Rightarrow> error + string" where
  "convert self args = convert_loop args (sigma_iter self) []"

subsection \<open>\<^verbatim>\<open>SigmaRegularExpression.escape\<close>\<close>

record SigmaRegularExpression =
  regexp :: string

text \<open>
  The constructor with \<^verbatim>\<open>__post_init__\<close>: the pattern is stored only if \<^verbatim>\<open>re.compile\<close>
  accepts it. The grammar of the library is not part of the source, so the set of
  patterns it accepts is the parameter \<open>re_compiles\<close>.
\<close>

definition SigmaRegularExpression_init ::
    "(string \<Rightarrow> bool) \<Rightarrow> string \<Rightarrow> error + SigmaRegularExpression" where
  "SigmaRegularExpression_init re_compiles pattern =
     (if re_compiles pattern then Inr \<lparr>regexp = pattern\<rparr>
      else Inl SigmaRegularExpressionError)"

text \<open>
  The pattern \<^verbatim>\<open>r\<close> built by \<^verbatim>\<open>escape\<close> is an alternation of \<^verbatim>\<open>re.escape\<close>d texts, so it
  is represented by the list of these texts: an alternative matches at a position iff
  its text is a prefix of the rest of the subject, and alternatives are tried in order.
  \<open>first_match\<close> gives the length of the match at the current position, if any; with
  \<open>must_advance\<close> set an empty match is refused, which is how the library continues
  after an empty match.
\<close>

fun first_match :: "string list \<Rightarrow> string \<Rightarrow> bool \<Rightarrow> nat option" where
  "first_match [] subject must_advance = None"
| "first_match (a # alts) subject must_advance =
     (if prefix a subject \<and> \<not> (must_advance \<and> a = []) then Some (length a)
      else first_match alts subject must_advance)"

text \<open>
  \<^verbatim>\<open>[m.start() for m in re.finditer(r, subject)]\<close>: the start offsets of the leftmost
  non-overlapping matches. The second argument is the rest of the subject at offset
  \<open>p\<close>, and \<open>skip\<close> counts the characters of the last match still to be passed over.
  After an empty match at \<open>p\<close> the search is retried at \<open>p\<close> for a non-empty match.
\<close>

fun finditer_starts :: "string list \<Rightarrow> string \<Rightarrow> nat \<Rightarrow> nat \<Rightarrow> nat list" where
  "finditer_starts alts [] p skip =
     (if skip = 0 \<and> first_match alts [] False \<noteq> None then [p] else [])"
| "finditer_starts alts (c # cs) p skip =
     (if 0 < skip then finditer_starts alts cs (Suc p) (skip - 1)
      else
        (case first_match alts (c # cs) False of
           None \<Rightarrow> finditer_starts alts cs (Suc p) 0
         | Some 0 \<Rightarrow>
             p # (case first_match alts (c # cs) True of
                    None \<Rightarrow> finditer_starts alts cs (Suc p) 0
                  | Some n \<Rightarrow> p # finditer_starts alts cs (Suc p) (n - 1))
         | Some (Suc n) \<Rightarrow> p # finditer_starts alts cs (Suc p) n))"

text \<open>The slice \<^verbatim>\<open>subject[i:j]\<close> for bounds that are \<^verbatim>\<open>None\<close> or non-negative.\<close>

definition py_slice :: "string \<Rightarrow> nat option \<Rightarrow> nat option \<Rightarrow> string" where
  "py_slice subject i j =
     (let lo = (case i of None \<Rightarrow> 0 | Some n \<Rightarrow> min n (length subject));
          hi = (case j of None \<Rightarrow> length subject | Some n \<Rightarrow> min n (length subject))
      in take (hi - lo) (drop lo subject))"

text \<open>\<^verbatim>\<open>sep.join(parts)\<close>\<close>

fun join :: "string \<Rightarrow> string list \<Rightarrow> string" where
  "join sep [] = []"
| "join sep [x] = x"
| "join sep (x # y # ys) = x @ sep @ join sep (y # ys)"

definition escape :: "SigmaRegularExpression \<Rightarrow> string list \<Rightarrow> string \<Rightarrow> string" where
  "escape self escaped esc =
     (let pos = finditer_starts (escaped @ [esc]) (regexp self) 0 0;
          ranges = zip (None # map Some pos) (map Some pos @ [None])
      in join esc (map (\<lambda>(i, j). py_slice (regexp self) i j) ranges))"

subsection \<open>\<^verbatim>\<open>SigmaNumber.__post_init__\<close>\<close>





subsection \<open>The specification's descriptions\<close>

text \<open>
  The tokenizer as the specification words it: a left-to-right scan whose state is an
  accumulation buffer, an escape flag and the tokens produced so far, over the fixed
  designator alphabet \<open>*\<close> (Multi) and \<open>?\<close> (Single).
\<close>

record scan_state =
  buffer :: string
  escape_flag :: bool
  tokens :: "item list"

definition is_designator :: "char \<Rightarrow> bool" where
  "is_designator c = (c = CHR ''*'' \<or> c = CHR ''?'')"

definition designated :: "char \<Rightarrow> SpecialChars" where
  "designated c = (if c = CHR ''*'' then WILDCARD_MULTI else WILDCARD_SINGLE)"

definition flush :: "string \<Rightarrow> item list" where
  "flush buf = (if buf \<noteq> [] then [Str buf] else [])"

definition spec_step :: "scan_state \<Rightarrow> char \<Rightarrow> scan_state" where
  "spec_step st c =
     (if escape_flag st then
        (if is_designator c \<or> c = escape_char
         then st\<lparr>buffer := buffer st @ [c], escape_flag := False\<rparr>
         else st\<lparr>buffer := buffer st @ [escape_char, c], escape_flag := False\<rparr>)
      else if c = escape_char then st\<lparr>escape_flag := True\<rparr>
      else if is_designator c then
        st\<lparr>tokens := tokens st @ flush (buffer st) @ [Special (designated c)], buffer := []\<rparr>
      else st\<lparr>buffer := buffer st @ [c]\<rparr>)"

definition spec_tokenize :: "string \<Rightarrow> item list" where
  "spec_tokenize raw =
     (let st = foldl spec_step \<lparr>buffer = [], escape_flag = False, tokens = []\<rparr> raw;
          buf = (if escape_flag st then buffer st @ [escape_char] else buffer st)
      in tokens st @ flush buf)"

text \<open>
  The prefix and suffix test as the specification words it, on the boundary token and
  the query: string comparison for two texts, equality for two wildcard markers, false
  for different kinds.
\<close>

definition spec_boundary_test :: "(string \<Rightarrow> string \<Rightarrow> bool) \<Rightarrow> item \<Rightarrow> py_value \<Rightarrow> bool" where
  "spec_boundary_test cmp token query =
     (case (token, query) of
        (Str a, PyStr b) \<Rightarrow> cmp b a
      | (Special k, PySpecialChars k') \<Rightarrow> k = k'
      | _ \<Rightarrow> False)"

text \<open>
  The serializer's treatment of one literal character as the specification words it,
  for an escape string \<open>e\<close>.
\<close>

definition spec_emit_char :: "convert_args \<Rightarrow> string \<Rightarrow> char \<Rightarrow> string" where
  "spec_emit_char args e c =
     (if c \<in> set (filter_chars args) then []
      else if c \<in> set (case wildcard_multi args of None \<Rightarrow> [] | Some m \<Rightarrow> m)
                \<union> set (case wildcard_single args of None \<Rightarrow> [] | Some sg \<Rightarrow> sg)
                \<union> set (add_escaped args)
      then e @ [c]
      else [c])"

fun repr_of :: "convert_args \<Rightarrow> SpecialChars \<Rightarrow> string option" where
  "repr_of args WILDCARD_MULTI = wildcard_multi args"
| "repr_of args WILDCARD_SINGLE = wildcard_single args"

fun spec_emit :: "convert_args \<Rightarrow> string \<Rightarrow> atom \<Rightarrow> string" where
  "spec_emit args e (AChar c) = spec_emit_char args e c"
| "spec_emit args e (ASpecial sp) = (case repr_of args sp of Some x \<Rightarrow> x | None \<Rightarrow> [])"

text \<open>The special characters of a sequence whose representation is not configured.\<close>

fun unrepresented :: "convert_args \<Rightarrow> item list \<Rightarrow> bool" where
  "unrepresented args [] = False"
| "unrepresented args (Str t # items) = unrepresented args items"
| "unrepresented args (Special sp # items) = (repr_of args sp = None \<or> unrepresented args items)"

text \<open>The same for the sequence that \<^verbatim>\<open>__iter__\<close> yields.\<close>

fun atoms_unrepresented :: "convert_args \<Rightarrow> atom list \<Rightarrow> bool" where
  "atoms_unrepresented args [] = False"
| "atoms_unrepresented args (AChar c # us) = atoms_unrepresented args us"
| "atoms_unrepresented args (ASpecial sp # us) = (repr_of args sp = None \<or> atoms_unrepresented args us)"


text \<open>
  The net effect the specification gives for delimiter escaping: the escape string goes
  before every position at which one of the texts occurs.
\<close>

fun insert_before_occurrences :: "string \<Rightarrow> string list \<Rightarrow> string \<Rightarrow> string" where
  "insert_before_occurrences esc ds [] = (if list_ex (\<lambda>d. prefix d []) ds then esc else [])"
| "insert_before_occurrences esc ds (c # cs) =
     (if list_ex (\<lambda>d. prefix d (c # cs)) ds then esc else [])
     @ c # insert_before_occurrences esc ds cs"

text \<open>
  No occurrence of a text begins inside a match of the scan: after a match the
  characters it covers beyond the first (\<open>skip\<close> of them are left) start no occurrence.
\<close>

fun no_occurrence_inside_match :: "string list \<Rightarrow> string \<Rightarrow> nat \<Rightarrow> bool" where
  "no_occurrence_inside_match alts [] skip = True"
| "no_occurrence_inside_match alts (c # cs) skip =
     (if 0 < skip then
        \<not> list_ex (\<lambda>d. prefix d (c # cs)) alts \<and> no_occurrence_inside_match alts cs (skip - 1)
      else
        (case first_match alts (c # cs) False of
           None \<Rightarrow> no_occurrence_inside_match alts cs 0
         | Some n \<Rightarrow> no_occurrence_inside_match alts cs (n - 1)))"

subsection \<open>Predicates on item sequences\<close>

text \<open>Every string part is non-empty.\<close>

fun literal_runs_nonempty :: "item list \<Rightarrow> bool" where
  "literal_runs_nonempty [] = True"
| "literal_runs_nonempty (Str t # items) = (t \<noteq> [] \<and> literal_runs_nonempty items)"
| "literal_runs_nonempty (Special sp # items) = literal_runs_nonempty items"

text \<open>
  The form of a parsed sequence: every string part is non-empty and no two string parts
  are adjacent.
\<close>

fun starts_with_str :: "item list \<Rightarrow> bool" where
  "starts_with_str (Str t # items) = True"
| "starts_with_str _ = False"

fun canonical :: "item list \<Rightarrow> bool" where
  "canonical [] = True"
| "canonical (Str t # items) = (t \<noteq> [] \<and> \<not> starts_with_str items \<and> canonical items)"
| "canonical (Special sp # items) = canonical items"

text \<open>The characters of the string parts.\<close>

fun literal_chars :: "item list \<Rightarrow> string" where
  "literal_chars [] = []"
| "literal_chars (Str t # items) = t @ literal_chars items"
| "literal_chars (Special sp # items) = literal_chars items"

text \<open>
  A text holds no escape sequence: no escape character is directly followed by a
  designator or by another escape character.
\<close>

fun no_escape_sequence :: "string \<Rightarrow> bool" where
  "no_escape_sequence (c # d # cs) =
     (\<not> (c = escape_char \<and> (char_mapping d \<noteq> None \<or> d = escape_char))
      \<and> no_escape_sequence (d # cs))"
| "no_escape_sequence _ = True"

text \<open>
  The scan of a text that takes the escape character for an ordinary character; on a
  text without escape sequence the parser computes the same.
\<close>

fun plain_loop :: "string \<Rightarrow> item list \<Rightarrow> string \<Rightarrow> item list" where
  "plain_loop [] r acc = (if acc \<noteq> [] then r @ [Str acc] else r)"
| "plain_loop (c # cs) r acc =
     (case char_mapping c of
        Some sp \<Rightarrow> plain_loop cs ((if acc \<noteq> [] then r @ [Str acc] else r) @ [Special sp]) []
      | None \<Rightarrow> plain_loop cs r (acc @ [c]))"

section \<open>Properties\<close>

subsection \<open>The parser follows the specified scan\<close>

text \<open>Scanning a concatenation continues from the state the first part leaves.\<close>

lemma init_loop_append:
  "init_loop (xs @ ys) r acc escaped =
     (case init_loop xs r acc escaped of (r', acc', escaped') \<Rightarrow> init_loop ys r' acc' escaped')"
  by (induction xs r acc escaped rule: init_loop.induct) (auto split: option.splits)

lemma char_mapping_designator:
  "char_mapping c = (if is_designator c then Some (designated c) else None)"
  by (simp add: char_mapping_def is_designator_def designated_def)

lemma spec_scan_refines:
  "init_loop raw (tokens st) (buffer st) (escape_flag st) =
     (let st' = foldl spec_step st raw in (tokens st', buffer st', escape_flag st'))"
proof (induction raw arbitrary: st)
  case Nil
  show ?case by simp
next
  case (Cons c cs)
  have step: "init_loop (c # cs) (tokens st) (buffer st) (escape_flag st) =
      init_loop cs (tokens (spec_step st c)) (buffer (spec_step st c)) (escape_flag (spec_step st c))"
    by (simp add: spec_step_def char_mapping_designator flush_def)
  show ?case unfolding step Cons.IH by simp
qed

lemma tokenize_refines: "s (SigmaString_init (Some raw)) = spec_tokenize raw"
proof -
  let ?st0 = "\<lparr>buffer = [], escape_flag = False, tokens = []\<rparr>"
  have "init_loop raw (tokens ?st0) (buffer ?st0) (escape_flag ?st0) =
     (let st' = foldl spec_step ?st0 raw in (tokens st', buffer st', escape_flag st'))"
    by (rule spec_scan_refines)
  then show ?thesis
    by (simp add: SigmaString_init_def spec_tokenize_def init_finish_def flush_def Let_def)
qed

lemma escape_char_not_designator: "\<not> is_designator escape_char"
  by (simp add: is_designator_def escape_char_def)

text \<open>
  C1. For every input, \<^verbatim>\<open>SigmaString.__init__\<close> computes the two-state scan of the
  specification (\<open>spec_tokenize\<close>); the raw string made of \<open>a\<close>, the escape character, \<open>*\<close>
  and \<open>b\<close> parses to the single string part \<^verbatim>\<open>a*b\<close>. After any input that leaves the
  scan unescaped with result \<open>r\<close> and buffer \<open>acc\<close>: an escape character followed by \<open>c\<close> appends \<open>c\<close> alone when \<open>c\<close> is a
  designator or the escape character, and the escape character together with \<open>c\<close>
  otherwise; an unescaped designator flushes the non-empty buffer and appends its
  special character; and a trailing escape character ends up, as a literal, at the end
  of the final string part.
\<close>

theorem tokenize_two_state_scan:
  "s (SigmaString_init (Some raw)) = spec_tokenize raw
   \<and> s (SigmaString_init (Some [CHR ''a'', escape_char, CHR ''*'', CHR ''b''])) = [Str ''a*b'']
   \<and> (init_loop raw [] [] False = (r, acc, False) \<longrightarrow>
        init_loop (raw @ [escape_char, c]) [] [] False =
          (r, acc @ (if is_designator c \<or> c = escape_char then [c] else [escape_char, c]), False)
        \<and> (is_designator c \<longrightarrow>
             init_loop (raw @ [c]) [] [] False = (r @ flush acc @ [Special (designated c)], [], False))
        \<and> s (SigmaString_init (Some (raw @ [escape_char]))) = r @ [Str (acc @ [escape_char])])"
proof (intro conjI impI)
  show "s (SigmaString_init (Some raw)) = spec_tokenize raw"
    by (rule tokenize_refines)
  show "s (SigmaString_init (Some [CHR ''a'', escape_char, CHR ''*'', CHR ''b''])) = [Str ''a*b'']"
    by (simp add: SigmaString_init_def init_finish_def char_mapping_def escape_char_def)
next
  assume st: "init_loop raw [] [] False = (r, acc, False)"
  show "init_loop (raw @ [escape_char, c]) [] [] False =
          (r, acc @ (if is_designator c \<or> c = escape_char then [c] else [escape_char, c]), False)"
    by (simp add: init_loop_append st char_mapping_designator)
  show "s (SigmaString_init (Some (raw @ [escape_char]))) = r @ [Str (acc @ [escape_char])]"
    by (simp add: SigmaString_init_def init_loop_append st init_finish_def)
next
  assume st: "init_loop raw [] [] False = (r, acc, False)" and d: "is_designator c"
  from d have "c \<noteq> escape_char"
    using escape_char_not_designator by auto
  with d show "init_loop (raw @ [c]) [] [] False = (r @ flush acc @ [Special (designated c)], [], False)"
    by (simp add: init_loop_append st char_mapping_designator flush_def)
qed

theorem tokenize_two_state_scan_witness:
  "init_loop ''a'' [] [] False = ([], ''a'', False)
   \<and> is_designator (CHR ''*'')
   \<and> init_loop (''a'' @ [escape_char, CHR ''*'']) [] [] False = ([], ''a*'', False)
   \<and> init_loop (''a'' @ ''*'') [] [] False = ([Str ''a'', Special WILDCARD_MULTI], [], False)
   \<and> s (SigmaString_init (Some (''a'' @ [escape_char]))) = [Str [CHR ''a'', escape_char]]"
proof -
  have h: "init_loop ''a'' [] [] False = ([], ''a'', False)"
    by (simp add: char_mapping_def escape_char_def)
  have d: "is_designator (CHR ''*'')"
    by (simp add: is_designator_def)
  from tokenize_two_state_scan [of "''a''" "[]" "''a''" "CHR ''*''"] h d
  show ?thesis
    by (simp add: flush_def designated_def)
qed

subsection \<open>Boundary access of \<^verbatim>\<open>startswith\<close> and \<^verbatim>\<open>endswith\<close>\<close>

lemma init_empty: "s (SigmaString_init (Some [])) = []"
  by (simp add: SigmaString_init_def init_finish_def)

text \<open>
  C10. \<^verbatim>\<open>startswith\<close> and \<^verbatim>\<open>endswith\<close> need a non-empty item sequence: on a value whose
  sequence is empty, such as the one parsed from the empty string, the read of the
  boundary item is out of range and both fail with \<^verbatim>\<open>IndexError\<close>, whatever the query.
\<close>

theorem boundary_access_empty_fails:
  "s (SigmaString_init (Some [])) = []
   \<and> startswith (SigmaString_init (Some [])) val = Inl IndexError
   \<and> endswith (SigmaString_init (Some [])) val = Inl IndexError
   \<and> startswith (w\<lparr>s := []\<rparr>) val = Inl IndexError
   \<and> endswith (w\<lparr>s := []\<rparr>) val = Inl IndexError"
  by (simp add: init_empty startswith_def endswith_def)

subsection \<open>Prefix and suffix test\<close>

text \<open>
  C6. \<^verbatim>\<open>startswith\<close> looks at the first item only and \<^verbatim>\<open>endswith\<close> at the last item only:
  the result is the specified boundary test on that item and the query, whatever the
  other items are. It is false when one is a text and the other a special character,
  the string prefix (suffix) test when both are texts, and equality when both are
  special characters.
\<close>

theorem boundary_test_single_item:
  "(s w = t1 # ts1 \<longrightarrow> startswith w q = Inr (spec_boundary_test prefix t1 q))
   \<and> (s w = ts2 @ [t2] \<longrightarrow> endswith w q = Inr (spec_boundary_test suffix t2 q))"
  by (cases t1; cases t2; cases q)
     (auto simp: startswith_def endswith_def spec_boundary_test_def)

theorem boundary_test_single_item_witness:
  "s (SigmaString_init (Some ''ab*'')) = Str ''ab'' # [Special WILDCARD_MULTI]
   \<and> s (SigmaString_init (Some ''ab*'')) = [Str ''ab''] @ [Special WILDCARD_MULTI]
   \<and> startswith (SigmaString_init (Some ''ab*'')) (PyStr ''a'') = Inr True
   \<and> endswith (SigmaString_init (Some ''ab*'')) (PyStr ''a'') = Inr False"
proof -
  have h: "s (SigmaString_init (Some ''ab*'')) = [Str ''ab'', Special WILDCARD_MULTI]"
    by (simp add: SigmaString_init_def init_finish_def char_mapping_def escape_char_def)
  from boundary_test_single_item [of "SigmaString_init (Some ''ab*'')" "Str ''ab''"
      "[Special WILDCARD_MULTI]" "PyStr ''a''" "[Str ''ab'']" "Special WILDCARD_MULTI"] h
  show ?thesis
    by (simp add: spec_boundary_test_def)
qed

subsection \<open>Equality with an unsupported operand\<close>

text \<open>
  C9. Comparing a \<^verbatim>\<open>SigmaString\<close> with an operand that is neither a \<^verbatim>\<open>str\<close> nor a
  \<^verbatim>\<open>SigmaString\<close> raises \<^verbatim>\<open>NotImplementedError\<close>, the failure the specification calls the
  TypeMismatch kind; it does not return a truth value.
\<close>

theorem eq_unsupported_operand_raises:
  "(\<forall>t. other \<noteq> PyStr t) \<Longrightarrow> (\<forall>w'. other \<noteq> PySigmaString w')
   \<Longrightarrow> eq w other = Inl NotImplementedError"
  by (cases other) (simp_all add: eq_def)

theorem eq_unsupported_operand_raises_witness:
  "(\<forall>t. PyInt 5 \<noteq> PyStr t) \<and> (\<forall>w'. PyInt 5 \<noteq> PySigmaString w')
   \<and> eq (SigmaString_init (Some ''a'')) (PyInt 5) = Inl NotImplementedError"
proof -
  have a: "\<forall>t. PyInt 5 \<noteq> PyStr t" by simp
  have b: "\<forall>w'. PyInt 5 \<noteq> PySigmaString w'" by simp
  from eq_unsupported_operand_raises [OF a b] a b show ?thesis by simp
qed

subsection \<open>Non-empty string parts\<close>

lemma literal_runs_nonempty_append:
  "literal_runs_nonempty (xs @ ys) = (literal_runs_nonempty xs \<and> literal_runs_nonempty ys)"
  by (induction xs rule: literal_runs_nonempty.induct) auto

lemma init_loop_nonempty:
  "literal_runs_nonempty r \<Longrightarrow> literal_runs_nonempty (init_finish (init_loop raw r acc escaped))"
  by (induction raw r acc escaped rule: init_loop.induct)
     (auto simp: init_finish_def literal_runs_nonempty_append Let_def split: option.splits)

lemma init_nonempty: "literal_runs_nonempty (s (SigmaString_init so))"
  by (simp add: SigmaString_init_def init_loop_nonempty)

text \<open>
  C8, as amended. Parsing never produces an empty string part. Concatenation with
  another \<^verbatim>\<open>SigmaString\<close> whose string parts are non-empty, with a special character, or
  with a non-empty text keeps every string part non-empty.
\<close>

theorem literal_runs_nonempty_preserved:
  "literal_runs_nonempty (s (SigmaString_init so))
   \<and> (literal_runs_nonempty (s a) \<and> literal_runs_nonempty (s b) \<longrightarrow>
        (\<exists>c. add a (PySigmaString b) = Some c \<and> literal_runs_nonempty (s c)))
   \<and> (literal_runs_nonempty (s a) \<longrightarrow>
        (\<exists>c. add a (PySpecialChars sp) = Some c \<and> literal_runs_nonempty (s c))
        \<and> (\<exists>c. radd a (PySpecialChars sp) = Some c \<and> literal_runs_nonempty (s c)))
   \<and> (literal_runs_nonempty (s a) \<and> t \<noteq> [] \<longrightarrow>
        (\<exists>c. add a (PyStr t) = Some c \<and> literal_runs_nonempty (s c))
        \<and> (\<exists>c. radd a (PyStr t) = Some c \<and> literal_runs_nonempty (s c)))"
  by (simp add: init_nonempty add_def radd_def literal_runs_nonempty_append)

theorem literal_runs_nonempty_preserved_witness:
  "literal_runs_nonempty (s (SigmaString_init (Some ''a*'')))
   \<and> literal_runs_nonempty (s (SigmaString_init (Some ''b'')))
   \<and> ''c'' \<noteq> []
   \<and> (\<exists>c. add (SigmaString_init (Some ''a*'')) (PySigmaString (SigmaString_init (Some ''b''))) = Some c
         \<and> literal_runs_nonempty (s c))
   \<and> (\<exists>c. add (SigmaString_init (Some ''a*'')) (PySpecialChars WILDCARD_SINGLE) = Some c
         \<and> literal_runs_nonempty (s c))
   \<and> (\<exists>c. radd (SigmaString_init (Some ''a*'')) (PyStr ''c'') = Some c
         \<and> literal_runs_nonempty (s c))"
proof -
  have a: "literal_runs_nonempty (s (SigmaString_init (Some ''a*'')))"
    by (simp add: SigmaString_init_def init_finish_def char_mapping_def escape_char_def)
  have b: "literal_runs_nonempty (s (SigmaString_init (Some ''b'')))"
    by (simp add: SigmaString_init_def init_finish_def char_mapping_def escape_char_def)
  have c: "''c'' \<noteq> []" by simp
  from literal_runs_nonempty_preserved [of "Some ''a*''" "SigmaString_init (Some ''a*'')"
      "SigmaString_init (Some ''b'')" WILDCARD_SINGLE "''c''"] a b c
  show ?thesis by blast
qed

text \<open>
  C8 as stated fails: \<^verbatim>\<open>__add__\<close> appends a text operand as it is, so adding the empty
  text to the value parsed from \<open>a\<close> leaves an empty string part in the sequence.
\<close>

theorem add_empty_text_counterexample:
  "literal_runs_nonempty (s (SigmaString_init (Some ''a'')))
   \<and> add (SigmaString_init (Some ''a'')) (PyStr []) = Some \<lparr>s = [Str ''a'', Str []], protected = True\<rparr>
   \<and> \<not> literal_runs_nonempty [Str ''a'', Str []]"
  by (simp add: add_def SigmaString_init_def init_finish_def char_mapping_def escape_char_def)

subsection \<open>Conversion of literal characters\<close>

lemma spec_emit_char_escaped:
  "spec_emit_char args e c =
     (if c \<in> set (filter_chars args) then []
      else if c \<in> escaped_chars args then e @ [c] else [c])"
  by (cases "wildcard_multi args"; cases "wildcard_single args")
     (simp_all add: spec_emit_char_def escaped_chars_def)


lemma atoms_unrepresented_append:
  "atoms_unrepresented args (us @ vs) = (atoms_unrepresented args us \<or> atoms_unrepresented args vs)"
  by (induction us rule: atoms_unrepresented.induct) auto

lemma atoms_unrepresented_chars: "\<not> atoms_unrepresented args (map AChar t)"
  by (induction t) auto

lemma atoms_unrepresented_iter:
  "atoms_unrepresented args (iter_items items) = unrepresented args items"
  by (induction items rule: iter_items.induct)
     (auto simp: atoms_unrepresented_append atoms_unrepresented_chars)

text \<open>
  With an escape string configured the loop either meets a special character without
  representation, or returns the accumulator extended by what each unit emits.
\<close>

lemma convert_loop_with_escape:
  "arg_escape_char args = Some e \<Longrightarrow>
   convert_loop args us out =
     (if atoms_unrepresented args us then Inl SigmaValueError
      else Inr (out @ concat (map (spec_emit args e) us)))"
proof (induction us arbitrary: out)
  case Nil
  show ?case by simp
next
  case (Cons u us)
  show ?case
  proof (cases u)
    case (AChar c)
    with Cons show ?thesis
      by (simp add: spec_emit_char_escaped)
  next
    case (ASpecial sp)
    with Cons show ?thesis
      by (cases sp) (auto split: option.splits)
  qed
qed

lemma convert_with_escape:
  "arg_escape_char args = Some e \<Longrightarrow>
   convert self args =
     (if unrepresented args (s self) then Inl SigmaValueError
      else Inr (concat (map (spec_emit args e) (sigma_iter self))))"
  by (simp add: convert_def sigma_iter_def convert_loop_with_escape atoms_unrepresented_iter)





subsection \<open>Failures of conversion\<close>

text \<open>
  C5. The value parsed from an escaped \<open>*\<close> holds the literal character \<open>*\<close>, which
  needs escaping under the default wildcard representations. With \<^verbatim>\<open>escape_char\<close> being
  \<^verbatim>\<open>None\<close>, which its annotation \<^verbatim>\<open>Optional[str]\<close> admits, \<^verbatim>\<open>convert\<close> neither returns
  a string nor raises \<^verbatim>\<open>SigmaValueError\<close>: appending \<^verbatim>\<open>None\<close> to the output raises
  \<^verbatim>\<open>TypeError\<close>. With an escape string configured, \<open>convert_with_escape\<close> above gives
  the claimed behaviour.
\<close>

theorem convert_without_escape_char_type_error:
  "s (SigmaString_init (Some [escape_char, CHR ''*''])) = [Str ''*'']
   \<and> convert (SigmaString_init (Some [escape_char, CHR ''*'']))
        (default_args\<lparr>arg_escape_char := None\<rparr>) = Inl TypeError"
  by (simp add: convert_def sigma_iter_def SigmaString_init_def init_finish_def
      char_mapping_def escape_char_def default_args_def escaped_chars_def)

subsection \<open>Conversion followed by parsing\<close>

text \<open>Every parsed sequence has the canonical form.\<close>

lemma starts_with_str_append:
  "starts_with_str (xs @ ys) = (if xs = [] then starts_with_str ys else starts_with_str xs)"
  by (cases xs rule: starts_with_str.cases) simp_all

lemma canonical_append:
  "canonical (xs @ ys) =
     (canonical xs \<and> canonical ys
      \<and> \<not> (xs \<noteq> [] \<and> (\<exists>t. last xs = Str t) \<and> starts_with_str ys))"
  by (induction xs rule: canonical.induct) (auto simp: starts_with_str_append)

lemma init_loop_canonical:
  "canonical r \<Longrightarrow> r = [] \<or> (\<exists>sp. last r = Special sp) \<Longrightarrow>
   canonical (init_finish (init_loop raw r acc escaped))"
proof (induction raw r acc escaped rule: init_loop.induct)
  case (1 r acc escaped)
  then show ?case
    by (auto simp: init_finish_def canonical_append)
next
  case (2 c cs r acc escaped)
  then show ?case
    by (auto simp: canonical_append split: option.splits)
qed

lemma init_canonical: "canonical (s (SigmaString_init so))"
  by (simp add: SigmaString_init_def init_loop_canonical)

lemma convert_loop_plain:
  "\<forall>c \<in> set t. c \<notin> escaped_chars args \<and> c \<notin> set (filter_chars args) \<Longrightarrow>
   convert_loop args (map AChar t @ us) out = convert_loop args us (out @ t)"
  by (induction t arbitrary: out) simp_all

lemma convert_loop_str_items:
  "wildcard_multi args = Some ''*'' \<Longrightarrow> wildcard_single args = Some ''?'' \<Longrightarrow>
   \<forall>c \<in> set (literal_chars items). c \<notin> escaped_chars args \<and> c \<notin> set (filter_chars args) \<Longrightarrow>
   convert_loop args (iter_items items) out = Inr (out @ str_items items)"
proof (induction items arbitrary: out rule: iter_items.induct)
  case 1
  show ?case by simp
next
  case (2 t items)
  then show ?case by (simp add: convert_loop_plain)
next
  case (3 sp items)
  then show ?case by (cases sp) simp_all
qed

lemma escaped_chars_designators:
  "wildcard_multi args = Some ''*'' \<Longrightarrow> wildcard_single args = Some ''?'' \<Longrightarrow>
   c \<notin> escaped_chars args \<Longrightarrow> char_mapping c = None"
  by (auto simp: escaped_chars_def char_mapping_def)

lemma escape_char_plain: "char_mapping escape_char = None"
  by (simp add: char_mapping_def escape_char_def)

text \<open>
  On a text without escape sequence the parser agrees with the scan that takes the
  escape character for an ordinary character, in both of its states.
\<close>

lemma init_loop_plain_loop:
  "(no_escape_sequence xs \<longrightarrow>
      init_finish (init_loop xs r acc False) = plain_loop xs r acc)
   \<and> (no_escape_sequence (escape_char # xs) \<longrightarrow>
      init_finish (init_loop xs r acc True) = plain_loop xs r (acc @ [escape_char]))"
proof (induction xs arbitrary: r acc)
  case Nil
  show ?case by (simp add: init_finish_def)
next
  case (Cons c cs)
  have tail: "no_escape_sequence (c # cs) \<Longrightarrow> no_escape_sequence cs"
    by (cases cs) simp_all
  show ?case
  proof (intro conjI impI)
    assume ne: "no_escape_sequence (c # cs)"
    show "init_finish (init_loop (c # cs) r acc False) = plain_loop (c # cs) r acc"
    proof (cases "c = escape_char")
      case True
      with ne Cons.IH [of r acc] show ?thesis
        by (simp add: escape_char_plain)
    next
      case False
      with tail [OF ne] Cons.IH show ?thesis
        by (simp split: option.splits)
    qed
  next
    assume ne: "no_escape_sequence (escape_char # c # cs)"
    then have plain: "char_mapping c = None" "c \<noteq> escape_char" and rest: "no_escape_sequence (c # cs)"
      by simp_all
    from tail [OF rest] Cons.IH [of r "acc @ [escape_char, c]"]
    show "init_finish (init_loop (c # cs) r acc True) = plain_loop (c # cs) r (acc @ [escape_char])"
      using plain by simp
  qed
qed

lemma plain_loop_plain:
  "\<forall>c \<in> set xs. char_mapping c = None \<Longrightarrow>
   plain_loop (xs @ rest) r acc = plain_loop rest r (acc @ xs)"
  by (induction xs arbitrary: acc) simp_all

lemma plain_loop_designator:
  "plain_loop (special_char_mapping sp # rest) r acc =
     plain_loop rest ((if acc \<noteq> [] then r @ [Str acc] else r) @ [Special sp]) []"
  by (cases sp) (simp_all add: char_mapping_def)

lemma plain_loop_str_items:
  "canonical items \<Longrightarrow>
   \<forall>c \<in> set (literal_chars items). char_mapping c = None \<Longrightarrow>
   acc \<noteq> [] \<longrightarrow> \<not> starts_with_str items \<Longrightarrow>
   plain_loop (str_items items) r acc = (if acc \<noteq> [] then r @ [Str acc] else r) @ items"
proof (induction items arbitrary: r acc rule: canonical.induct)
  case 1
  show ?case by simp
next
  case (2 t items)
  from "2.prems" have acc: "acc = []" by simp
  from "2.prems" have plain: "\<forall>c \<in> set t. char_mapping c = None"
    by simp
  have "plain_loop (str_items items) r t = (if t \<noteq> [] then r @ [Str t] else r) @ items"
    using "2.prems" by (intro "2.IH") simp_all
  with "2.prems" show ?case
    by (simp add: acc plain_loop_plain [OF plain])
next
  case (3 sp items)
  have "plain_loop (str_items items) ((if acc \<noteq> [] then r @ [Str acc] else r) @ [Special sp]) [] =
          (if ([]::string) \<noteq> [] then
             ((if acc \<noteq> [] then r @ [Str acc] else r) @ [Special sp]) @ [Str []]
           else (if acc \<noteq> [] then r @ [Str acc] else r) @ [Special sp]) @ items"
    using "3.prems" by (intro "3.IH") simp_all
  then show ?case
    by (simp add: plain_loop_designator del: plain_loop.simps)
qed

text \<open>
  C2, as amended. The parser has the fixed designators \<open>*\<close> and \<open>?\<close>, so it inverts
  \<^verbatim>\<open>convert\<close> for the arguments whose wildcard representations are these. For a value
  in canonical form (as every parsed value is, \<open>init_canonical\<close>) whose literal
  characters are neither escaped nor filtered by the arguments, and in whose rendering
  no escape character is directly followed by a wildcard or by another escape
  character, \<^verbatim>\<open>convert\<close> returns the plain rendering of the value and parsing that
  returns the value's item sequence. A literal escape character anywhere else, before
  an ordinary character or at the end, is allowed.
\<close>

theorem convert_tokenize_roundtrip:
  assumes multi: "wildcard_multi args = Some ''*''"
    and single: "wildcard_single args = Some ''?''"
    and canon: "canonical (s w)"
    and clean: "\<forall>c \<in> set (literal_chars (s w)).
                  c \<notin> escaped_chars args \<and> c \<notin> set (filter_chars args)"
    and noseq: "no_escape_sequence (sigma_str w)"
  shows "convert w args = Inr (sigma_str w)
         \<and> s (SigmaString_init (Some (sigma_str w))) = s w"
proof
  from clean show "convert w args = Inr (sigma_str w)"
    by (simp add: convert_def sigma_iter_def sigma_str_def convert_loop_str_items [OF multi single])
  from clean have plain: "\<forall>c \<in> set (literal_chars (s w)). char_mapping c = None"
    using escaped_chars_designators [OF multi single] by blast
  have "plain_loop (str_items (s w)) [] [] =
          (if ([]::string) \<noteq> [] then [] @ [Str []] else []) @ s w"
    using canon plain by (intro plain_loop_str_items) simp_all
  moreover from noseq have
    "init_finish (init_loop (str_items (s w)) [] [] False) = plain_loop (str_items (s w)) [] []"
    using init_loop_plain_loop [of "str_items (s w)" "[]" "[]"] by (simp add: sigma_str_def)
  ultimately show "s (SigmaString_init (Some (sigma_str w))) = s w"
    by (simp add: SigmaString_init_def sigma_str_def)
qed

theorem convert_tokenize_roundtrip_witness:
  "wildcard_multi default_args = Some ''*'' \<and> wildcard_single default_args = Some ''?''
   \<and> s (SigmaString_init (Some [CHR ''a'', escape_char, CHR ''b'', CHR ''*'', CHR ''c'', escape_char]))
       = [Str [CHR ''a'', escape_char, CHR ''b''], Special WILDCARD_MULTI, Str [CHR ''c'', escape_char]]
   \<and> canonical (s (SigmaString_init (Some [CHR ''a'', escape_char, CHR ''b'', CHR ''*'', CHR ''c'', escape_char])))
   \<and> list_all (\<lambda>c. c \<notin> escaped_chars default_args \<and> c \<notin> set (filter_chars default_args))
         (literal_chars (s (SigmaString_init (Some [CHR ''a'', escape_char, CHR ''b'', CHR ''*'', CHR ''c'', escape_char]))))
   \<and> no_escape_sequence (sigma_str (SigmaString_init (Some [CHR ''a'', escape_char, CHR ''b'', CHR ''*'', CHR ''c'', escape_char])))
   \<and> convert (SigmaString_init (Some [CHR ''a'', escape_char, CHR ''b'', CHR ''*'', CHR ''c'', escape_char])) default_args
       = Inr [CHR ''a'', escape_char, CHR ''b'', CHR ''*'', CHR ''c'', escape_char]"
proof -
  let ?raw = "[CHR ''a'', escape_char, CHR ''b'', CHR ''*'', CHR ''c'', escape_char]"
  let ?w = "SigmaString_init (Some ?raw)"
  have w: "s ?w = [Str [CHR ''a'', escape_char, CHR ''b''], Special WILDCARD_MULTI, Str [CHR ''c'', escape_char]]"
    by (simp add: SigmaString_init_def init_finish_def char_mapping_def escape_char_def)
  have m: "wildcard_multi default_args = Some ''*''" by (simp add: default_args_def)
  have sg: "wildcard_single default_args = Some ''?''" by (simp add: default_args_def)
  have c: "canonical (s ?w)" by (simp add: w)
  have cl: "\<forall>c \<in> set (literal_chars (s ?w)).
         c \<notin> escaped_chars default_args \<and> c \<notin> set (filter_chars default_args)"
    unfolding w by (simp add: escaped_chars_def default_args_def escape_char_def)
  have ns: "no_escape_sequence (sigma_str ?w)"
    unfolding sigma_str_def w by (simp add: char_mapping_def escape_char_def)
  have r: "sigma_str ?w = ?raw"
    unfolding sigma_str_def w by simp
  from convert_tokenize_roundtrip [OF m sg c cl ns] m sg c cl ns w show ?thesis
    unfolding r by (simp add: list_all_iff)
qed

text \<open>
  C2 as stated fails for a literal escape character: under the default arguments it
  needs no escaping, so the value parsed from two escape characters and \<open>*\<close> (a
  literal escape character, then the multi wildcard) converts to one escape character
  and \<open>*\<close>, which parses to the literal \<open>*\<close>.
\<close>

theorem roundtrip_escape_char_counterexample:
  "s (SigmaString_init (Some [escape_char, escape_char, CHR ''*''])) = [Str [escape_char], Special WILDCARD_MULTI]
   \<and> wildcard_multi default_args = Some ''*'' \<and> wildcard_single default_args = Some ''?''
   \<and> escape_char \<notin> escaped_chars default_args
   \<and> convert (SigmaString_init (Some [escape_char, escape_char, CHR ''*''])) default_args
        = Inr [escape_char, CHR ''*'']
   \<and> s (SigmaString_init (Some [escape_char, CHR ''*''])) = [Str ''*'']
   \<and> s (SigmaString_init (Some [escape_char, CHR ''*'']))
        \<noteq> s (SigmaString_init (Some [escape_char, escape_char, CHR ''*'']))"
  by (simp add: SigmaString_init_def init_finish_def char_mapping_def escape_char_def
      convert_def sigma_iter_def default_args_def escaped_chars_def)

subsection \<open>Escaping delimiters in a regular expression\<close>

lemma prefix_single: "length a = 1 \<Longrightarrow> prefix a (c # cs) = (a = [c])"
  by (cases a) simp_all

lemma prefix_single_nil: "length a = 1 \<Longrightarrow> \<not> prefix a []"
  by (cases a) simp_all

lemma first_match_single_nil:
  "\<forall>a \<in> set alts. length a = 1 \<Longrightarrow> first_match alts [] ma = None"
  by (induction alts) auto

lemma first_match_single_cons:
  "\<forall>a \<in> set alts. length a = 1 \<Longrightarrow>
   first_match alts (c # cs) ma = (if [c] \<in> set alts then Some 1 else None)"
  by (induction alts) (auto simp: prefix_single)

lemma occurs_single_nil:
  "\<forall>a \<in> set alts. length a = 1 \<Longrightarrow> \<not> list_ex (\<lambda>d. d = []) alts"
  by (induction alts) auto

lemma occurs_single_cons:
  "\<forall>a \<in> set alts. length a = 1 \<Longrightarrow>
   list_ex (\<lambda>d. prefix d (c # cs)) alts = ([c] \<in> set alts)"
  by (induction alts) (auto simp: prefix_single)

lemma finditer_starts_single_nil:
  "\<forall>a \<in> set alts. length a = 1 \<Longrightarrow> finditer_starts alts [] p 0 = []"
  by (simp add: first_match_single_nil)

lemma finditer_starts_single_cons:
  "\<forall>a \<in> set alts. length a = 1 \<Longrightarrow>
   finditer_starts alts (c # cs) p 0 =
     (if [c] \<in> set alts then p # finditer_starts alts cs (Suc p) 0
      else finditer_starts alts cs (Suc p) 0)"
  by (simp add: first_match_single_cons)

lemma join_cons: "join sep (x # ys) = (if ys = [] then x else x @ sep @ join sep ys)"
  by (cases ys) simp_all

lemma insert_before_occurrences_single:
  "\<forall>a \<in> set alts. length a = 1 \<Longrightarrow>
   insert_before_occurrences esc alts subject =
     concat (map (\<lambda>c. if [c] \<in> set alts then esc @ [c] else [c]) subject)"
  by (induction subject) (simp_all add: occurs_single_nil occurs_single_cons)

lemma py_slice_None: "py_slice subject None j = py_slice subject (Some 0) j"
  by (simp add: py_slice_def)

lemma first_match_nonempty_nil:
  "\<forall>a \<in> set alts. a \<noteq> [] \<Longrightarrow> first_match alts [] ma = None"
  by (induction alts) auto

lemma no_empty_occurrence:
  "\<forall>a \<in> set alts. a \<noteq> [] \<Longrightarrow> \<not> list_ex (\<lambda>d. d = []) alts"
  by (induction alts) auto

lemma first_match_None:
  "(first_match alts subject False = None) = (\<not> list_ex (\<lambda>d. prefix d subject) alts)"
  by (induction alts) auto

lemma first_match_Some_positive:
  "\<forall>a \<in> set alts. a \<noteq> [] \<Longrightarrow> first_match alts subject ma = Some n \<Longrightarrow> 0 < n"
  by (induction alts) (auto split: if_splits)

lemma take_Suc_drop:
  "i \<le> p \<Longrightarrow> p < length subject \<Longrightarrow>
   take (Suc p - i) (drop i subject) = take (p - i) (drop i subject) @ [subject ! p]"
  by (simp add: Suc_diff_le take_Suc_conv_app_nth)

text \<open>
  The chunks cut at the match offsets, joined by the escape string: from offset \<open>p\<close> on,
  with the pending chunk starting at \<open>i\<close> and \<open>skip\<close> characters of the last match left.
\<close>

lemma chunks_general:
  assumes nonempty: "\<forall>a \<in> set alts. a \<noteq> []"
  shows "drop p subject = rest \<Longrightarrow> i \<le> p \<Longrightarrow> p \<le> length subject \<Longrightarrow>
    no_occurrence_inside_match alts rest skip \<Longrightarrow>
    join esc (map (\<lambda>(i, j). py_slice subject i j)
        (zip (Some i # map Some (finditer_starts alts rest p skip))
             (map Some (finditer_starts alts rest p skip) @ [None]))) =
      take (p - i) (drop i subject) @ insert_before_occurrences esc alts rest"
proof (induction rest arbitrary: p i skip)
  case Nil
  then show ?case
    by (simp add: first_match_nonempty_nil [OF nonempty] no_empty_occurrence [OF nonempty]
        py_slice_def)
next
  case (Cons c cs)
  from Cons.prems have p: "p < length subject"
    by (cases "p < length subject") simp_all
  from Cons.prems have c: "subject ! p = c"
    by (metis nth_via_drop)
  from Cons.prems have rest: "drop (Suc p) subject = cs"
    by (metis drop_Suc list.sel(3) tl_drop)
  have advance: "take (Suc p - i) (drop i subject) = take (p - i) (drop i subject) @ [c]"
    using take_Suc_drop [OF Cons.prems(2) p] c by simp
  have step_none: "join esc (map (\<lambda>(i, j). py_slice subject i j)
        (zip (Some i # map Some (finditer_starts alts cs (Suc p) k))
             (map Some (finditer_starts alts cs (Suc p) k) @ [None]))) =
      take (p - i) (drop i subject) @ c # insert_before_occurrences esc alts cs"
    if "no_occurrence_inside_match alts cs k" for k
    using Cons.IH [OF rest _ _ that, of i] Cons.prems(2) p advance by simp
  have step_match: "join esc (map (\<lambda>(i, j). py_slice subject i j)
        (zip (Some i # map Some (p # finditer_starts alts cs (Suc p) k))
             (map Some (p # finditer_starts alts cs (Suc p) k) @ [None]))) =
      take (p - i) (drop i subject) @ esc @ c # insert_before_occurrences esc alts cs"
    if "no_occurrence_inside_match alts cs k" for k
  proof -
    have ih: "join esc (map (\<lambda>(i, j). py_slice subject i j)
        (zip (Some p # map Some (finditer_starts alts cs (Suc p) k))
             (map Some (finditer_starts alts cs (Suc p) k) @ [None]))) =
      take (Suc p - p) (drop p subject) @ insert_before_occurrences esc alts cs"
      using Cons.IH [OF rest _ _ that, of p] p by simp
    have head: "py_slice subject (Some i) (Some p) = take (p - i) (drop i subject)"
      using Cons.prems by (simp add: py_slice_def min_def)
    have one: "take (Suc p - p) (drop p subject) = [c]"
      using Cons.prems by simp
    show ?thesis
      by (simp add: join_cons head ih [unfolded one] del: join.simps)
  qed
  show ?case
  proof (cases "0 < skip")
    case True
    with Cons.prems(4) have no: "\<not> list_ex (\<lambda>d. prefix d (c # cs)) alts"
      and inner: "no_occurrence_inside_match alts cs (skip - 1)"
      by simp_all
    from True no step_none [OF inner] show ?thesis
      by simp
  next
    case False
    show ?thesis
    proof (cases "first_match alts (c # cs) False")
      case None
      with False Cons.prems(4) have inner: "no_occurrence_inside_match alts cs 0"
        by simp
      from None have no: "\<not> list_ex (\<lambda>d. prefix d (c # cs)) alts"
        using first_match_None [of alts "c # cs"] by simp
      from False None no step_none [OF inner] show ?thesis
        by simp
    next
      case (Some n)
      from first_match_Some_positive [OF nonempty Some] obtain m where n: "n = Suc m"
        by (cases n) simp_all
      from False Some n Cons.prems(4) have inner: "no_occurrence_inside_match alts cs m"
        by simp
      from Some have occ: "list_ex (\<lambda>d. prefix d (c # cs)) alts"
        using first_match_None [of alts "c # cs"] by simp
      from False Some n occ step_match [OF inner] show ?thesis
        by simp
    qed
  qed
qed

lemma escape_general:
  assumes "\<forall>a \<in> set (escaped @ [esc]). a \<noteq> []"
    and "no_occurrence_inside_match (escaped @ [esc]) (regexp self) 0"
  shows "escape self escaped esc = insert_before_occurrences esc (escaped @ [esc]) (regexp self)"
proof -
  let ?pos = "finditer_starts (escaped @ [esc]) (regexp self) 0 0"
  have "map (\<lambda>(i, j). py_slice (regexp self) i j) (zip (None # map Some ?pos) (map Some ?pos @ [None]))
      = map (\<lambda>(i, j). py_slice (regexp self) i j) (zip (Some 0 # map Some ?pos) (map Some ?pos @ [None]))"
    by (cases ?pos) (simp_all add: py_slice_None)
  moreover have "join esc (map (\<lambda>(i, j). py_slice (regexp self) i j)
        (zip (Some 0 # map Some ?pos) (map Some ?pos @ [None]))) =
      take (0 - 0) (drop 0 (regexp self)) @ insert_before_occurrences esc (escaped @ [esc]) (regexp self)"
    using assms by (intro chunks_general) simp_all
  ultimately show ?thesis
    by (simp add: escape_def Let_def)
qed

text \<open>Single-character texts never have an occurrence inside a match.\<close>

lemma single_characters_no_occurrence_inside_match:
  "\<forall>a \<in> set alts. length a = 1 \<Longrightarrow> no_occurrence_inside_match alts subject 0"
  by (induction subject) (simp_all add: first_match_single_cons)

text \<open>
  C3, as amended. For every constructed regular expression value, every list of
  non-empty delimiters and every escape character \<open>e\<close>: when no occurrence of a
  delimiter or of \<open>e\<close> begins inside a match of the left-to-right scan, \<^verbatim>\<open>escape\<close> returns
  the stored pattern with exactly one \<open>e\<close> before every occurrence of a listed delimiter
  or of \<open>e\<close> itself and every other character unchanged. Delimiters of one character
  always satisfy the condition. The witness has the pattern \<open>a.b\<close> followed by two
  escape characters and \<open>c\<close>, with the delimiters \<open>.\<close> and the escape character, and
  the pattern \<open>ab.c\<close> with the delimiters \<open>ab\<close> and \<open>.\<close>.
\<close>

theorem escape_before_every_occurrence:
  assumes "SigmaRegularExpression_init re_compiles pattern = Inr self"
    and "\<forall>d \<in> set escaped. d \<noteq> []"
    and "no_occurrence_inside_match (escaped @ [[e]]) pattern 0"
  shows "escape self escaped [e] = insert_before_occurrences [e] (escaped @ [[e]]) pattern"
proof -
  from assms(1) have self: "regexp self = pattern"
    by (auto simp: SigmaRegularExpression_init_def split: if_splits)
  from assms(2) have "\<forall>a \<in> set (escaped @ [[e]]). a \<noteq> []"
    by simp
  from escape_general [OF this, of self] assms(3) self show ?thesis
    by simp
qed

theorem escape_before_every_occurrence_witness:
  "SigmaRegularExpression_init
       (\<lambda>p. p = [CHR ''a'', CHR ''.'', CHR ''b'', escape_char, escape_char, CHR ''c''])
       [CHR ''a'', CHR ''.'', CHR ''b'', escape_char, escape_char, CHR ''c'']
     = Inr \<lparr>regexp = [CHR ''a'', CHR ''.'', CHR ''b'', escape_char, escape_char, CHR ''c'']\<rparr>
   \<and> list_all (\<lambda>d. d \<noteq> []) [''.'', [escape_char]]
   \<and> no_occurrence_inside_match ([''.'', [escape_char]] @ [[escape_char]])
        [CHR ''a'', CHR ''.'', CHR ''b'', escape_char, escape_char, CHR ''c''] 0
   \<and> escape \<lparr>regexp = [CHR ''a'', CHR ''.'', CHR ''b'', escape_char, escape_char, CHR ''c'']\<rparr>
        [''.'', [escape_char]] [escape_char]
       = [CHR ''a'', escape_char, CHR ''.'', CHR ''b'', escape_char, escape_char,
          escape_char, escape_char, CHR ''c'']
   \<and> no_occurrence_inside_match ([''ab'', ''.''] @ [[escape_char]]) ''ab.c'' 0
   \<and> escape \<lparr>regexp = ''ab.c''\<rparr> [''ab'', ''.''] [escape_char]
       = [escape_char, CHR ''a'', CHR ''b'', escape_char, CHR ''.'', CHR ''c'']"
proof -
  let ?pat = "[CHR ''a'', CHR ''.'', CHR ''b'', escape_char, escape_char, CHR ''c'']"
  have i: "SigmaRegularExpression_init (\<lambda>p. p = ?pat) ?pat = Inr \<lparr>regexp = ?pat\<rparr>"
    by (simp add: SigmaRegularExpression_init_def)
  have h: "\<forall>d \<in> set [''.'', [escape_char]]. d \<noteq> []" by simp
  have n: "no_occurrence_inside_match ([''.'', [escape_char]] @ [[escape_char]]) ?pat 0"
    by (simp add: escape_char_def)
  have i': "SigmaRegularExpression_init (\<lambda>p. p = ''ab.c'') ''ab.c'' = Inr \<lparr>regexp = ''ab.c''\<rparr>"
    by (simp add: SigmaRegularExpression_init_def)
  have h': "\<forall>d \<in> set [''ab'', ''.'']. d \<noteq> []" by simp
  have n': "no_occurrence_inside_match ([''ab'', ''.''] @ [[escape_char]]) ''ab.c'' 0"
    by (simp add: escape_char_def)
  from escape_before_every_occurrence [OF i h n] escape_before_every_occurrence [OF i' h' n']
    i h n n'
  show ?thesis
    by (simp add: escape_char_def)
qed

text \<open>
  C3 as stated fails when an occurrence lies inside a match: matches do not
  overlap, so with the delimiters \<open>.*\<close> and \<open>*\<close> the pattern \<open>a.*b\<close> gets one escape
  character before \<open>.*\<close> and none before the \<open>*\<close> inside that match.
\<close>

theorem escape_overlapping_counterexample:
  "escape \<lparr>regexp = ''a.*b''\<rparr> [''.*'', ''*''] [escape_char]
     = [CHR ''a'', escape_char, CHR ''.'', CHR ''*'', CHR ''b'']
   \<and> insert_before_occurrences [escape_char] ([''.*'', ''*''] @ [[escape_char]]) ''a.*b''
     = [CHR ''a'', escape_char, CHR ''.'', escape_char, CHR ''*'', CHR ''b'']
   \<and> escape \<lparr>regexp = ''a.*b''\<rparr> [''.*'', ''*''] [escape_char]
     \<noteq> insert_before_occurrences [escape_char] ([''.*'', ''*''] @ [[escape_char]]) ''a.*b''"
  by (simp add: escape_def py_slice_def escape_char_def)

subsection \<open>Numeric normalization\<close>





end
